theory Spec2Isabelle
  imports Main "HOL-Library.Multiset" "HOL-Library.Sublist"
begin

section \<open>Python exceptions\<close>

text \<open>
  Both fetch functions of \<^verbatim>\<open>reports/main.py\<close> wrap their whole body in
  \<^verbatim>\<open>try: ... except Exception as e\<close>. The handler selects by class only, so an
  exception is modelled by its class and its text \<^verbatim>\<open>str(e)\<close>. \<open>KeyboardInterrupt\<close> and
  \<open>SystemExit\<close> derive from \<open>BaseException\<close> but not from \<open>Exception\<close>; every other
  class listed here derives from \<open>Exception\<close>.
\<close>

datatype exn_class =
    GithubException | BadCredentialsException | UnknownObjectException
  | RateLimitExceededException | ConnectionError | JSONDecodeError
  | ValueError | TypeError | AttributeError | IndexError | KeyError
  | KeyboardInterrupt | SystemExit

fun is_Exception :: "exn_class \<Rightarrow> bool" where
  "is_Exception KeyboardInterrupt = False"
| "is_Exception SystemExit = False"
| "is_Exception _ = True"

datatype py_exn = PyExn (cls: exn_class) (exn_str: string)

section \<open>The remote client, as the code reads it\<close>

text \<open>
  The PyGithub client is not part of the repository; it is a parameter of the model. A call
  that can raise returns a sum, \<open>Inl\<close> the exception. Attribute reads on objects the
  client has returned are plain field reads, with one exception: the commits of a listing
  come without their statistics, and reading \<^verbatim>\<open>commit.stats\<close> (line 65) fetches the
  commit from the remote side, which can raise. \<open>stats\<close> is the outcome of that read:
  the total of changed lines, \<open>None\<close> when the commit has no statistics, or the
  exception.

  \<open>get_pulls\<close> stands for \<^verbatim>\<open>commit.get_pulls()\<close> together with the reads of
  \<^verbatim>\<open>totalCount\<close> and \<^verbatim>\<open>pulls[0].number\<close>: the list holds the numbers of the linked pull
  requests and \<^verbatim>\<open>totalCount\<close> is its length.
\<close>

record datetime =
  year :: nat
  month :: nat
  day :: nat

record commit =
  sha :: string
  message :: string
  author_name :: string
  committer_name :: string
  html_url :: string
  stats :: "py_exn + int option"
  get_pulls :: "py_exn + int list"

record repository =
  get_commits :: "string \<Rightarrow> datetime \<Rightarrow> datetime \<Rightarrow> py_exn + commit list"

record item =
  item_number :: int
  item_title :: string
  item_state :: string
  item_user :: "string option"
  item_html_url :: string
  item_created_at :: "string option"
  item_updated_at :: "string option"
  item_pull_request :: bool
  item_owner :: string
  item_repo :: string

text \<open>
  \<^verbatim>\<open>g.search_issues(query)\<close> (lines 103 and 104) builds a list that is filled on demand
  and sends nothing; the requests of a query are sent when \<^verbatim>\<open>[*issues, *prs]\<close> (line 107)
  iterates its list, the issues first, then the pull requests. \<open>search_issues g q\<close>
  is the outcome of that iteration: the items, or the exception a request has raised.
  \<open>close\<close> is \<open>Some e\<close> when \<^verbatim>\<open>g.close()\<close> raises \<open>e\<close>.
\<close>

record github =
  get_repo :: "string \<Rightarrow> py_exn + repository"
  search_issues :: "string \<Rightarrow> py_exn + item list"
  close :: "py_exn option"

section \<open>Output rows\<close>

record commit_row =
  c_sha :: string
  c_message :: string
  c_author :: string
  c_committer :: string
  c_url :: string
  c_total_changes :: int
  c_organization :: string
  c_repository :: string

datatype item_type = PR | Issue

record resolved_row =
  r_number :: int
  r_title :: string
  r_type :: item_type
  r_state :: string
  r_author :: "string option"
  r_url :: string
  r_created_at :: "string option"
  r_updated_at :: "string option"
  r_organization :: string
  r_repository :: string
  r_contributor :: string

section \<open>\<^verbatim>\<open>get_commits_for_repo_author\<close>\<close>

text \<open>
  The loop of lines 46 to 53, with its three lists passed as state. A commit with two or
  more pull requests takes neither branch.
\<close>

fun group_commits ::
  "commit list \<Rightarrow> int list \<Rightarrow> commit list \<Rightarrow> commit list \<Rightarrow> py_exn + (commit list \<times> commit list)"
where
  "group_commits [] prs pr_commits standalone_commits = Inr (pr_commits, standalone_commits)"
| "group_commits (c # commits) prs pr_commits standalone_commits =
     (case get_pulls c of
        Inl e \<Rightarrow> Inl e
      | Inr pulls \<Rightarrow>
          if length pulls = 1 then
            (if hd pulls \<notin> set prs
             then group_commits commits (prs @ [hd pulls]) (pr_commits @ [c]) standalone_commits
             else group_commits commits prs pr_commits standalone_commits)
          else if length pulls = 0 then
            group_commits commits prs pr_commits (standalone_commits @ [c])
          else group_commits commits prs pr_commits standalone_commits)"

text \<open>\<^verbatim>\<open>message.split("\n")[0]\<close>: the text before the first newline.\<close>

definition first_line :: "string \<Rightarrow> string" where
  "first_line s = takeWhile (\<lambda>ch. ch \<noteq> CHR 0x0A) s"

text \<open>
  One dictionary of lines 59 to 68. The read of \<^verbatim>\<open>commit.stats\<close> can raise; then no row
  is built.
\<close>

definition commit_details :: "string \<Rightarrow> string \<Rightarrow> commit \<Rightarrow> py_exn + commit_row" where
  "commit_details owner repo c =
     (case stats c of
        Inl e \<Rightarrow> Inl e
      | Inr st \<Rightarrow>
          Inr \<lparr> c_sha = sha c,
                c_message = first_line (message c),
                c_author = author_name c,
                c_committer = committer_name c,
                c_url = html_url c,
                c_total_changes = (case st of Some n \<Rightarrow> n | None \<Rightarrow> 0),
                c_organization = owner,
                c_repository = repo \<rparr>)"

text \<open>The loop of lines 57 to 69, the list \<open>results\<close> passed as state.\<close>

fun extract_details ::
  "string \<Rightarrow> string \<Rightarrow> commit list \<Rightarrow> commit_row list \<Rightarrow> py_exn + commit_row list"
where
  "extract_details owner repo [] results = Inr results"
| "extract_details owner repo (c # commits) results =
     (case commit_details owner repo c of
        Inl e \<Rightarrow> Inl e
      | Inr row \<Rightarrow> extract_details owner repo commits (results @ [row]))"

text \<open>The body of the \<^verbatim>\<open>try\<close> block, lines 36 to 70.\<close>

definition commits_body ::
  "github \<Rightarrow> string \<Rightarrow> string \<Rightarrow> string \<Rightarrow> datetime \<Rightarrow> datetime \<Rightarrow> py_exn + commit_row list"
where
  "commits_body g owner repo author start_date end_date =
     (case get_repo g (owner @ ''/'' @ repo) of
        Inl e \<Rightarrow> Inl e
      | Inr rp \<Rightarrow>
          (case get_commits rp author start_date end_date of
             Inl e \<Rightarrow> Inl e
           | Inr commits \<Rightarrow>
               (case group_commits commits [] [] [] of
                  Inl e \<Rightarrow> Inl e
                | Inr (pr_commits, standalone_commits) \<Rightarrow>
                    extract_details owner repo (pr_commits @ standalone_commits) [])))"

definition commits_error_line :: "string \<Rightarrow> string \<Rightarrow> string \<Rightarrow> py_exn \<Rightarrow> string" where
  "commits_error_line owner repo author e =
     ''  Error processing '' @ owner @ ''/'' @ repo @ '' for '' @ author @ '': '' @ exn_str e"

text \<open>
  The function returns the lines it prints and the list it returns; \<open>Inl\<close> is an exception
  that leaves the function. The handler of line 71 takes every exception whose class
  derives from \<open>Exception\<close>.
\<close>

definition get_commits_for_repo_author ::
  "github \<Rightarrow> string \<Rightarrow> string \<Rightarrow> string \<Rightarrow> datetime \<Rightarrow> datetime
     \<Rightarrow> py_exn + (string list \<times> commit_row list)"
where
  "get_commits_for_repo_author g owner repo author start_date end_date =
     (case commits_body g owner repo author start_date end_date of
        Inr results \<Rightarrow> Inr ([], results)
      | Inl e \<Rightarrow>
          if is_Exception (cls e)
          then Inr ([commits_error_line owner repo author e], [])
          else Inl e)"

section \<open>\<^verbatim>\<open>get_resolved_for_contributor\<close>\<close>

text \<open>
  \<^verbatim>\<open>strftime("%Y-%m-%d")\<close> as CPython prints it on Linux, where the directives go to the
  C library: the year as a decimal number without padding (four digits from the year 1000
  on, fewer below), the month and the day padded with zeros to two digits.
\<close>

definition digit_char :: "nat \<Rightarrow> char" where
  "digit_char d = ''0123456789'' ! d"

fun decimal :: "nat \<Rightarrow> string" where
  "decimal n = (if n < 10 then [digit_char n] else decimal (n div 10) @ [digit_char (n mod 10)])"

declare decimal.simps [simp del]

definition zero_pad :: "nat \<Rightarrow> string \<Rightarrow> string" where
  "zero_pad w s = replicate (w - length s) CHR ''0'' @ s"

definition strftime_Y_m_d :: "datetime \<Rightarrow> string" where
  "strftime_Y_m_d d =
     decimal (year d) @ ''-'' @ zero_pad 2 (decimal (month d)) @ ''-''
       @ zero_pad 2 (decimal (day d))"

text \<open>\<^verbatim>\<open>sep.join(parts)\<close>.\<close>

fun join :: "string \<Rightarrow> string list \<Rightarrow> string" where
  "join sep [] = []"
| "join sep [x] = x"
| "join sep (x # y # ys) = x @ sep @ join sep (y # ys)"

type_synonym task = "string \<times> string \<times> string"

definition repo_filters :: "task list \<Rightarrow> string" where
  "repo_filters tasks = join '' '' (map (\<lambda>(owner, repo, _). ''repo:'' @ owner @ ''/'' @ repo) tasks)"

definition base_query :: "task list \<Rightarrow> string \<Rightarrow> datetime \<Rightarrow> datetime \<Rightarrow> string" where
  "base_query tasks contributor start_date end_date =
     (let start_str = strftime_Y_m_d start_date;
          end_str = strftime_Y_m_d end_date
      in repo_filters tasks @ '' '' @ ''involves:'' @ contributor @ '' ''
           @ ''closed:'' @ start_str @ ''..'' @ end_str)"

definition resolved_details :: "string \<Rightarrow> item \<Rightarrow> resolved_row" where
  "resolved_details contributor i =
     \<lparr> r_number = item_number i,
       r_title = item_title i,
       r_type = (if item_pull_request i then PR else Issue),
       r_state = item_state i,
       r_author = item_user i,
       r_url = item_html_url i,
       r_created_at = item_created_at i,
       r_updated_at = item_updated_at i,
       r_organization = item_owner i,
       r_repository = item_repo i,
       r_contributor = contributor \<rparr>"

text \<open>The loop of lines 107 to 128, the list \<open>results\<close> passed as state.\<close>

fun resolved_loop :: "task list \<Rightarrow> string \<Rightarrow> item list \<Rightarrow> resolved_row list \<Rightarrow> resolved_row list" where
  "resolved_loop tasks contributor [] results = results"
| "resolved_loop tasks contributor (i # items) results =
     (if (item_owner i, item_repo i, contributor) \<notin> set tasks
      then resolved_loop tasks contributor items results
      else resolved_loop tasks contributor items (results @ [resolved_details contributor i]))"

text \<open>
  The body of the \<^verbatim>\<open>try\<close> block, lines 94 to 129. The first component is the list of the
  queries that have been sent to the remote side, in the order of sending: the query for
  the pull requests is sent only after the issues have been listed.
\<close>

definition resolved_body ::
  "github \<Rightarrow> task list \<Rightarrow> string \<Rightarrow> datetime \<Rightarrow> datetime
     \<Rightarrow> string list \<times> (py_exn + resolved_row list)"
where
  "resolved_body g tasks contributor start_date end_date =
     (let bq = base_query tasks contributor start_date end_date;
          q1 = ''is:issue '' @ bq;
          q2 = ''is:pr '' @ bq @ '' -author:'' @ contributor
      in case search_issues g q1 of
           Inl e \<Rightarrow> ([q1], Inl e)
         | Inr issue_items \<Rightarrow>
             (case search_issues g q2 of
                Inl e \<Rightarrow> ([q1, q2], Inl e)
              | Inr pr_items \<Rightarrow>
                  ([q1, q2], Inr (resolved_loop tasks contributor (issue_items @ pr_items) []))))"

definition resolved_error_line :: "string \<Rightarrow> py_exn \<Rightarrow> string" where
  "resolved_error_line contributor e =
     ''  Error fetching issues/PRs for '' @ contributor @ '': '' @ exn_str e"

definition get_resolved_for_contributor ::
  "github \<Rightarrow> task list \<Rightarrow> string \<Rightarrow> datetime \<Rightarrow> datetime
     \<Rightarrow> string list \<times> (py_exn + (string list \<times> resolved_row list))"
where
  "get_resolved_for_contributor g tasks contributor start_date end_date =
     (case resolved_body g tasks contributor start_date end_date of
        (queries, Inr results) \<Rightarrow> (queries, Inr ([], results))
      | (queries, Inl e) \<Rightarrow>
          (queries,
           if is_Exception (cls e)
           then Inr ([resolved_error_line contributor e], [])
           else Inl e))"

section \<open>\<^verbatim>\<open>main\<close>\<close>

text \<open>
  The configuration module, \<^verbatim>\<open>datetime.strptime\<close>, the client constructor and the order
  in which the worker pool completes its futures are parameters. \<open>Github\<close> maps the
  token (or none) to the client a task works with: the remote side answers the same
  question the same way for every task of one run. \<open>commits_done i\<close> is the moment the
  \<open>i\<close>-th submitted commit task completes, \<open>resolved_done\<close> likewise.
  The second component of a contributor is the username (line 203).
\<close>

record environment =
  get_current_pi :: string
  get_time_range :: "string \<Rightarrow> (string \<times> string) option"
  get_contributors_for_pi :: "string \<Rightarrow> (string \<times> string) list"
  get_repos_x_contributors_for_pi :: "string \<Rightarrow> task list"
  strptime_Ymd :: "string \<Rightarrow> py_exn + datetime"
  Github :: "string option \<Rightarrow> github"
  commits_done :: "nat \<Rightarrow> nat"
  resolved_done :: "nat \<Rightarrow> nat"

text \<open>
  \<^verbatim>\<open>make_client\<close>, lines 176 to 179: an empty token is falsy. Constructing a client
  makes no remote call and does not raise.
\<close>

definition make_client :: "environment \<Rightarrow> string option \<Rightarrow> github" where
  "make_client env token =
     (case token of
        None \<Rightarrow> Github env None
      | Some t \<Rightarrow> if t \<noteq> [] then Github env (Some t) else Github env None)"

text \<open>
  The two task functions, lines 181 to 198. If \<^verbatim>\<open>g.close()\<close> raises in the
  \<^verbatim>\<open>finally\<close> clause, that exception leaves the task. What a task prints goes to standard
  output and is not part of what it returns.
\<close>

definition process_commits_task ::
  "environment \<Rightarrow> string option \<Rightarrow> datetime \<Rightarrow> datetime \<Rightarrow> task \<Rightarrow> py_exn + commit_row list"
where
  "process_commits_task env token time_start time_end tsk =
     (case tsk of (owner, repo, username) \<Rightarrow>
        (let g = make_client env token;
             r = get_commits_for_repo_author g owner repo username time_start time_end
         in case close g of
              Some e \<Rightarrow> Inl e
            | None \<Rightarrow> map_sum id snd r))"

definition process_resolved_task ::
  "environment \<Rightarrow> string option \<Rightarrow> task list \<Rightarrow> datetime \<Rightarrow> datetime \<Rightarrow> string
     \<Rightarrow> py_exn + resolved_row list"
where
  "process_resolved_task env token tasks time_start time_end username =
     (let g = make_client env token;
          r = snd (get_resolved_for_contributor g tasks username time_start time_end)
      in case close g of
           Some e \<Rightarrow> Inl e
         | None \<Rightarrow> map_sum id snd r)"

text \<open>
  \<^verbatim>\<open>as_completed\<close>: the futures in the order of their completion, futures that complete
  at the same moment in the order of submission.
\<close>

definition as_completed :: "(nat \<Rightarrow> nat) \<Rightarrow> 'a list \<Rightarrow> 'a list" where
  "as_completed finish futures = map snd (sort_key (\<lambda>p. finish (fst p)) (enumerate 0 futures))"

text \<open>
  The collecting loops, lines 205 to 215: \<^verbatim>\<open>future.result()\<close> raises again what the
  task raised, which ends \<^verbatim>\<open>main\<close>.
\<close>

fun extend_all :: "(py_exn + 'a list) list \<Rightarrow> 'a list \<Rightarrow> py_exn + 'a list" where
  "extend_all [] acc = Inr acc"
| "extend_all (Inl e # futures) acc = Inl e"
| "extend_all (Inr rows # futures) acc = extend_all futures (acc @ rows)"

text \<open>
  \<^verbatim>\<open>DataFrame.drop_duplicates(subset=...)\<close> with its default \<^verbatim>\<open>keep="first"\<close>: a row stays
  unless an earlier row has the same values in the columns of \<^verbatim>\<open>subset\<close>, here the key.
\<close>

fun drop_duplicates_seen :: "('a \<Rightarrow> 'k) \<Rightarrow> 'k list \<Rightarrow> 'a list \<Rightarrow> 'a list" where
  "drop_duplicates_seen key seen [] = []"
| "drop_duplicates_seen key seen (x # xs) =
     (if key x \<in> set seen
      then drop_duplicates_seen key seen xs
      else x # drop_duplicates_seen key (key x # seen) xs)"

definition drop_duplicates :: "('a \<Rightarrow> 'k) \<Rightarrow> 'a list \<Rightarrow> 'a list" where
  "drop_duplicates key xs = drop_duplicates_seen key [] xs"

definition resolved_key :: "resolved_row \<Rightarrow> int \<times> string \<times> string" where
  "resolved_key r = (r_number r, r_organization r, r_repository r)"

datatype submitted = CommitsTask task | ResolvedTask string

record report =
  authored_commits_csv :: string
  authored_commits :: "commit_row list"
  resolved_csv :: string
  resolved :: "resolved_row list"

text \<open>Lines 146 and 147: the requested interval, or the current one.\<close>

definition requested_pi :: "environment \<Rightarrow> string option \<Rightarrow> string" where
  "requested_pi env pi_arg = (case pi_arg of None \<Rightarrow> get_current_pi env | Some p \<Rightarrow> p)"

text \<open>Lines 149 to 154: the date range of the interval, parsed.\<close>

definition time_bounds :: "environment \<Rightarrow> string \<Rightarrow> py_exn + (datetime \<times> datetime)" where
  "time_bounds env pi_id =
     (case get_time_range env pi_id of
        None \<Rightarrow> Inl (PyExn ValueError (''No date range found for PI: '' @ pi_id))
      | Some time_range \<Rightarrow>
          (case strptime_Ymd env (fst time_range) of
             Inl e \<Rightarrow> Inl e
           | Inr time_start \<Rightarrow>
               (case strptime_Ymd env (snd time_range) of
                  Inl e \<Rightarrow> Inl e
                | Inr time_end \<Rightarrow> Inr (time_start, time_end))))"

text \<open>
  Lines 205 to 228: the two collecting loops over the completed futures, then the two
  tables; only the second is deduplicated.
\<close>

definition aggregate ::
  "string \<Rightarrow> (py_exn + commit_row list) list \<Rightarrow> (py_exn + resolved_row list) list
     \<Rightarrow> py_exn + report"
where
  "aggregate pi_id completed_commits completed_resolved =
     (case extend_all completed_commits [] of
        Inl e \<Rightarrow> Inl e
      | Inr all_commits \<Rightarrow>
          (case extend_all completed_resolved [] of
             Inl e \<Rightarrow> Inl e
           | Inr all_resolved \<Rightarrow>
               Inr \<lparr> authored_commits_csv = ''output/'' @ pi_id @ ''-authored-commits.csv'',
                     authored_commits = all_commits,
                     resolved_csv = ''output/'' @ pi_id @ ''-resolved-issues-prs.csv'',
                     resolved = drop_duplicates resolved_key all_resolved \<rparr>))"

text \<open>
  \<^verbatim>\<open>main\<close> returns the tasks it has handed to the worker pool, in the order of submission,
  and either the exception that ended it or the two tables with the paths they are
  written to. Every call of the client is made inside a submitted task. The progress lines
  are not modelled. \<^verbatim>\<open>ThreadPoolExecutor\<close> refuses a width below one with a
  \<open>ValueError\<close>.
\<close>

definition main ::
  "environment \<Rightarrow> string option \<Rightarrow> string option \<Rightarrow> int \<Rightarrow> submitted list \<times> (py_exn + report)"
where
  "main env token pi_arg max_workers =
     (let pi_id = requested_pi env pi_arg in
      case time_bounds env pi_id of
        Inl e \<Rightarrow> ([], Inl e)
      | Inr (time_start, time_end) \<Rightarrow>
          (let contributors = get_contributors_for_pi env pi_id;
               tasks = get_repos_x_contributors_for_pi env pi_id
           in if length tasks < 1 then
                ([], Inl (PyExn ValueError ''No repos x contributors found in config.''))
              else if max_workers \<le> 0 then
                ([], Inl (PyExn ValueError ''max_workers must be greater than 0''))
              else
                (let commits_futures =
                       map (process_commits_task env token time_start time_end) tasks;
                     resolved_issues_futures =
                       map (process_resolved_task env token tasks time_start time_end)
                         (map snd contributors)
                 in (map CommitsTask tasks @ map ResolvedTask (map snd contributors),
                     aggregate pi_id
                       (as_completed (commits_done env) commits_futures)
                       (as_completed (resolved_done env) resolved_issues_futures)))))"

text \<open>The rows a completed future holds; none when the task raised.\<close>

definition rows_of :: "py_exn + 'a list \<Rightarrow> 'a list" where
  "rows_of future = (case future of Inr rows \<Rightarrow> rows | Inl _ \<Rightarrow> [])"

section \<open>The classification, stated over positions\<close>

text \<open>
  \<open>linked c\<close> is the list of pull-request numbers of a commit whose lookup returned.
  \<open>single_prs cs\<close> lists the numbers of the commits of \<open>cs\<close> that are linked to
  exactly one pull request. Position \<open>i\<close> is standalone when its commit has no pull
  request; it defines a pull request when its commit has exactly one and no earlier commit
  with exactly one pull request has the same number.
\<close>

definition linked :: "commit \<Rightarrow> int list" where
  "linked c = (case get_pulls c of Inr pulls \<Rightarrow> pulls | Inl _ \<Rightarrow> [])"

definition single_prs :: "commit list \<Rightarrow> int list" where
  "single_prs cs = map (\<lambda>c. hd (linked c)) (filter (\<lambda>c. length (linked c) = 1) cs)"

definition standalone_at :: "commit list \<Rightarrow> nat \<Rightarrow> bool" where
  "standalone_at cs i = (linked (cs ! i) = [])"

definition defines_pr_at :: "commit list \<Rightarrow> nat \<Rightarrow> bool" where
  "defines_pr_at cs i =
     (length (linked (cs ! i)) = 1 \<and> hd (linked (cs ! i)) \<notin> set (single_prs (take i cs)))"

definition kept_at :: "commit list \<Rightarrow> nat \<Rightarrow> bool" where
  "kept_at cs i = (standalone_at cs i \<or> defines_pr_at cs i)"


section \<open>Dates and their printed form\<close>

text \<open>The ranges Python's \<^verbatim>\<open>datetime\<close> keeps its fields in.\<close>

definition valid_datetime :: "datetime \<Rightarrow> bool" where
  "valid_datetime d =
     (1 \<le> year d \<and> year d \<le> 9999 \<and> 1 \<le> month d \<and> month d \<le> 12 \<and> 1 \<le> day d \<and> day d \<le> 31)"

definition is_digit :: "char \<Rightarrow> bool" where
  "is_digit ch = (ch \<in> set ''0123456789'')"

text \<open>The shape \<^verbatim>\<open>YYYY-MM-DD\<close>: ten characters, digits but for the two hyphens.\<close>

definition date_shaped :: "string \<Rightarrow> bool" where
  "date_shaped s =
     (length s = 10 \<and> list_all is_digit (take 4 s) \<and> s ! 4 = CHR ''-'' \<and>
      list_all is_digit (take 2 (drop 5 s)) \<and> s ! 7 = CHR ''-'' \<and>
      list_all is_digit (drop 8 s))"

section \<open>Concrete inputs\<close>

definition example_commit :: "string \<Rightarrow> py_exn + int list \<Rightarrow> commit" where
  "example_commit s pulls =
     \<lparr> sha = s, message = ''change '' @ s, author_name = ''Alice'', committer_name = ''Alice'',
       html_url = ''https://example.org/commit/'' @ s, stats = Inr None, get_pulls = pulls \<rparr>"

definition example_row :: "string \<Rightarrow> string \<Rightarrow> string \<Rightarrow> commit_row" where
  "example_row owner repo s =
     \<lparr> c_sha = s, c_message = first_line (''change '' @ s), c_author = ''Alice'',
       c_committer = ''Alice'', c_url = ''https://example.org/commit/'' @ s,
       c_total_changes = 0, c_organization = owner, c_repository = repo \<rparr>"

definition example_item :: "int \<Rightarrow> string \<Rightarrow> string \<Rightarrow> bool \<Rightarrow> item" where
  "example_item n owner repo is_pr =
     \<lparr> item_number = n, item_title = ''title'', item_state = ''closed'', item_user = Some ''carol'',
       item_html_url = ''https://example.org/item'', item_created_at = None,
       item_updated_at = None, item_pull_request = is_pr, item_owner = owner,
       item_repo = repo \<rparr>"

definition no_results :: "string \<Rightarrow> py_exn + item list" where
  "no_results q = Inr []"

definition search_raises :: "py_exn \<Rightarrow> string \<Rightarrow> py_exn + item list" where
  "search_raises e q = Inl e"

definition issues_then_prs ::
  "py_exn + item list \<Rightarrow> py_exn + item list \<Rightarrow> string \<Rightarrow> py_exn + item list"
where
  "issues_then_prs issues prs q = (if take 9 q = ''is:issue '' then issues else prs)"

definition example_client ::
  "py_exn + commit list \<Rightarrow> (string \<Rightarrow> py_exn + item list) \<Rightarrow> github" where
  "example_client commits search =
     \<lparr> get_repo = (\<lambda>_. Inr \<lparr> get_commits = (\<lambda>_ _ _. commits) \<rparr>),
       search_issues = search,
       close = None \<rparr>"

definition example_start :: datetime where
  "example_start = \<lparr> year = 2026, month = 1, day = 5 \<rparr>"

definition example_end :: datetime where
  "example_end = \<lparr> year = 2026, month = 3, day = 27 \<rparr>"

definition scenario_commits :: "commit list" where
  "scenario_commits =
     [example_commit ''a'' (Inr [101]), example_commit ''b'' (Inr [101]),
      example_commit ''c'' (Inr []), example_commit ''d'' (Inr [55, 56])]"


definition example_env :: "github \<Rightarrow> task list \<Rightarrow> (string \<times> string) list \<Rightarrow> environment" where
  "example_env g tasks contributors =
     \<lparr> get_current_pi = ''pi-26.1'',
       get_time_range = (\<lambda>p. if p = ''pi-26.1'' then Some (''20260105'', ''20260327'') else None),
       get_contributors_for_pi = (\<lambda>_. contributors),
       get_repos_x_contributors_for_pi = (\<lambda>_. tasks),
       strptime_Ymd =
         (\<lambda>s. if s = ''20260105'' then Inr example_start
              else if s = ''20260327'' then Inr example_end
              else Inl (PyExn ValueError ''time data does not match format'')),
       Github = (\<lambda>_. g),
       commits_done = (\<lambda>i. i),
       resolved_done = (\<lambda>i. i) \<rparr>"

section \<open>The commit fetch task: which commits are kept, and in which order\<close>

lemma group_commits_positions:
  assumes "\<forall>c\<in>set cs. get_pulls c = Inr (linked c)" and "set prs = set (single_prs pre)"
  shows "group_commits cs prs pc sc =
           Inr (pc @ map (nth (pre @ cs)) (filter (defines_pr_at (pre @ cs)) [length pre..<length pre + length cs]),
                sc @ map (nth (pre @ cs)) (filter (standalone_at (pre @ cs)) [length pre..<length pre + length cs]))"
  using assms
proof (induction cs arbitrary: pre prs pc sc)
  case Nil
  then show ?case by simp
next
  case (Cons c cs)
  have gp: "get_pulls c = Inr (linked c)" using Cons.prems(1) by simp
  have rest: "\<forall>c\<in>set cs. get_pulls c = Inr (linked c)" using Cons.prems(1) by simp
  have upt: "[length pre..<length pre + length (c # cs)] = length pre # [length (pre @ [c])..<length (pre @ [c]) + length cs]"
    by (simp add: upt_rec)
  have app: "pre @ c # cs = (pre @ [c]) @ cs" by simp
  have def_here: "defines_pr_at (pre @ c # cs) (length pre) = (length (linked c) = 1 \<and> hd (linked c) \<notin> set prs)"
    by (simp add: defines_pr_at_def Cons.prems(2))
  have sa_here: "standalone_at (pre @ c # cs) (length pre) = (linked c = [])"
    by (simp add: standalone_at_def)
  have nth_here: "(pre @ c # cs) ! length pre = c" by simp
  show ?case
  proof (cases "length (linked c) = 1")
    case True
    note one = True
    show ?thesis
    proof (cases "hd (linked c) \<in> set prs")
      case True
      have prs': "set prs = set (single_prs (pre @ [c]))"
        using True one Cons.prems(2) by (auto simp: single_prs_def)
      have ne: "linked c \<noteq> []" using one by auto
      show ?thesis
        using Cons.IH[OF rest prs', of pc sc] one True ne
        unfolding upt app[symmetric]
        by (simp add: gp def_here sa_here del: upt.simps)
    next
      case False
      have prs': "set (prs @ [hd (linked c)]) = set (single_prs (pre @ [c]))"
        using one Cons.prems(2) by (auto simp: single_prs_def)
      have ne: "linked c \<noteq> []" using one by auto
      show ?thesis
        using Cons.IH[OF rest prs', of "pc @ [c]" sc] one False ne
        unfolding upt app[symmetric]
        by (simp add: gp def_here sa_here del: upt.simps)
    qed
  next
    case False
    have prs': "set prs = set (single_prs (pre @ [c]))"
      using False Cons.prems(2) by (auto simp: single_prs_def)
    show ?thesis
    proof (cases "linked c = []")
      case True
      show ?thesis
        using Cons.IH[OF rest prs', of pc "sc @ [c]"] False True
        unfolding upt app[symmetric]
        by (simp add: gp def_here sa_here del: upt.simps)
    next
      case nonempty: False
      show ?thesis
        using Cons.IH[OF rest prs', of pc sc] False nonempty
        unfolding upt app[symmetric]
        by (simp add: gp def_here sa_here del: upt.simps)
    qed
  qed
qed

lemma group_commits_all:
  assumes "\<forall>c\<in>set cs. \<exists>pulls. get_pulls c = Inr pulls"
  shows "group_commits cs [] [] [] =
           Inr (map (nth cs) (filter (defines_pr_at cs) [0..<length cs]),
                map (nth cs) (filter (standalone_at cs) [0..<length cs]))"
proof -
  have ok: "\<forall>c\<in>set cs. get_pulls c = Inr (linked c)"
    using assms by (auto simp: linked_def)
  have "set ([]::int list) = set (single_prs [])" by (simp add: single_prs_def)
  from group_commits_positions[OF ok this, of "[]" "[]"] show ?thesis by simp
qed

lemma example_details:
  "commit_details owner repo (example_commit s pulls) = Inr (example_row owner repo s)"
  by (simp add: commit_details_def example_commit_def example_row_def)

lemma example_commit_fields:
  "get_pulls (example_commit s pulls) = pulls"
  "stats (example_commit s pulls) = Inr None"
  "sha (example_commit s pulls) = s"
  by (simp_all add: example_commit_def)

lemma extract_details_rows:
  "\<forall>c\<in>set cs. \<exists>st. stats c = Inr st \<Longrightarrow>
   \<exists>rows. extract_details owner repo cs results = Inr (results @ rows) \<and>
          map Inr rows = map (commit_details owner repo) cs"
proof (induction cs arbitrary: results)
  case Nil
  show ?case by simp
next
  case (Cons c cs)
  from Cons.prems obtain st where st: "stats c = Inr st" by auto
  then obtain row where row: "commit_details owner repo c = Inr row"
    by (simp add: commit_details_def)
  from Cons.prems have "\<forall>c\<in>set cs. \<exists>st. stats c = Inr st" by simp
  from Cons.IH[OF this, of "results @ [row]"] obtain rows where
    "extract_details owner repo cs (results @ [row]) = Inr ((results @ [row]) @ rows)"
    "map Inr rows = map (commit_details owner repo) cs" by blast
  then have "extract_details owner repo (c # cs) results = Inr (results @ row # rows) \<and>
             map Inr (row # rows) = map (commit_details owner repo) (c # cs)"
    using row by simp
  then show ?case by blast
qed

lemma extract_details_raises:
  "\<forall>d\<in>set before. \<exists>st. stats d = Inr st \<Longrightarrow> stats c = Inl x \<Longrightarrow>
   extract_details owner repo (before @ c # after) results = Inl x"
proof (induction before arbitrary: results)
  case Nil
  then show ?case by (simp add: commit_details_def)
next
  case (Cons d before)
  from Cons.prems obtain st where "stats d = Inr st" by auto
  then obtain row where "commit_details owner repo d = Inr row"
    by (simp add: commit_details_def)
  with Cons show ?case by simp
qed

lemma commits_fetched:
  assumes "get_repo g (owner @ ''/'' @ repo) = Inr rp"
    and "get_commits rp author start_date end_date = Inr cs"
    and "\<forall>c\<in>set cs. \<exists>pulls. get_pulls c = Inr pulls"
    and "\<forall>i<length cs. kept_at cs i \<longrightarrow> (\<exists>st. stats (cs ! i) = Inr st)"
  shows "\<exists>rows.
           get_commits_for_repo_author g owner repo author start_date end_date = Inr ([], rows) \<and>
           map Inr rows =
             map (commit_details owner repo)
               (map (nth cs) (filter (defines_pr_at cs) [0..<length cs]) @
                map (nth cs) (filter (standalone_at cs) [0..<length cs]))"
proof -
  let ?kept = "map (nth cs) (filter (defines_pr_at cs) [0..<length cs]) @
               map (nth cs) (filter (standalone_at cs) [0..<length cs])"
  have "\<forall>c\<in>set ?kept. \<exists>st. stats c = Inr st"
    using assms(4) by (auto simp: kept_at_def simp del: upt.simps)
  from extract_details_rows[OF this, of owner repo "[]"] obtain rows where
    rows: "extract_details owner repo ?kept [] = Inr rows"
      "map Inr rows = map (commit_details owner repo) ?kept"
    by auto
  have "get_commits_for_repo_author g owner repo author start_date end_date = Inr ([], rows)"
    using assms(1,2) group_commits_all[OF assms(3)] rows(1)
    by (simp add: get_commits_for_repo_author_def commits_body_def del: upt.simps)
  with rows(2) show ?thesis by blast
qed











text \<open>
  Claim C8. When the repository, the commit listing, every pull-request lookup and the
  statistics read of every kept commit return, the returned rows are those of the commits
  that define a pull request, in increasing position, followed by those of the standalone
  commits, in increasing position. And whatever the remote side does, a list the task
  returns is either empty or that list of rows.
\<close>

lemma group_commits_looked_up:
  "group_commits cs prs pr_commits standalone_commits = Inr r \<Longrightarrow>
   \<forall>c\<in>set cs. \<exists>pulls. get_pulls c = Inr pulls"
proof (induction cs arbitrary: prs pr_commits standalone_commits)
  case Nil
  show ?case by simp
next
  case (Cons c cs)
  from Cons.prems obtain pulls where p: "get_pulls c = Inr pulls"
    by (cases "get_pulls c") simp_all
  from Cons.prems p obtain prs' pc' sc' where "group_commits cs prs' pc' sc' = Inr r"
    by (auto split: if_splits)
  from Cons.IH[OF this] p show ?case by simp
qed

lemma extract_details_returned:
  "extract_details owner repo cs results = Inr out \<Longrightarrow>
   \<exists>rows. out = results @ rows \<and> map Inr rows = map (commit_details owner repo) cs"
proof (induction cs arbitrary: results)
  case Nil
  then show ?case by simp
next
  case (Cons c cs)
  from Cons.prems obtain row where row: "commit_details owner repo c = Inr row"
    by (cases "commit_details owner repo c") simp_all
  with Cons.prems have "extract_details owner repo cs (results @ [row]) = Inr out" by simp
  from Cons.IH[OF this] obtain rows where
    "out = (results @ [row]) @ rows" "map Inr rows = map (commit_details owner repo) cs"
    by blast
  then have "out = results @ row # rows \<and>
             map Inr (row # rows) = map (commit_details owner repo) (c # cs)"
    using row by simp
  then show ?case by blast
qed

lemma commits_returned_rows:
  assumes "get_commits_for_repo_author g owner repo author start_date end_date = Inr (printed, rows)"
    and "rows \<noteq> []"
  shows "\<exists>rp cs.
           get_repo g (owner @ ''/'' @ repo) = Inr rp \<and>
           get_commits rp author start_date end_date = Inr cs \<and>
           map Inr rows =
             map (commit_details owner repo)
               (map (nth cs) (filter (defines_pr_at cs) [0..<length cs]) @
                map (nth cs) (filter (standalone_at cs) [0..<length cs]))"
proof -
  have body: "commits_body g owner repo author start_date end_date = Inr rows"
    using assms
    by (cases "commits_body g owner repo author start_date end_date")
      (auto simp: get_commits_for_repo_author_def split: if_splits)
  then obtain rp where rp: "get_repo g (owner @ ''/'' @ repo) = Inr rp"
    by (cases "get_repo g (owner @ ''/'' @ repo)") (simp_all add: commits_body_def)
  with body obtain cs where cs: "get_commits rp author start_date end_date = Inr cs"
    by (cases "get_commits rp author start_date end_date") (simp_all add: commits_body_def)
  with body rp obtain r where r: "group_commits cs [] [] [] = Inr r"
    by (cases "group_commits cs [] [] []") (simp_all add: commits_body_def)
  let ?kept = "map (nth cs) (filter (defines_pr_at cs) [0..<length cs]) @
               map (nth cs) (filter (standalone_at cs) [0..<length cs])"
  from group_commits_all[OF group_commits_looked_up[OF r]]
  have g: "group_commits cs [] [] [] =
             Inr (map (nth cs) (filter (defines_pr_at cs) [0..<length cs]),
                  map (nth cs) (filter (standalone_at cs) [0..<length cs]))" .
  from body rp cs g have "extract_details owner repo ?kept [] = Inr rows"
    by (simp add: commits_body_def del: upt.simps)
  from extract_details_returned[OF this] have "map Inr rows = map (commit_details owner repo) ?kept"
    by auto
  with rp cs show ?thesis by blast
qed

theorem commit_output_order:
  "(\<forall>rp cs.
      get_repo g (owner @ ''/'' @ repo) = Inr rp \<longrightarrow>
      get_commits rp author start_date end_date = Inr cs \<longrightarrow>
      (\<forall>c\<in>set cs. \<exists>pulls. get_pulls c = Inr pulls) \<longrightarrow>
      (\<forall>i<length cs. kept_at cs i \<longrightarrow> (\<exists>st. stats (cs ! i) = Inr st)) \<longrightarrow>
      (\<exists>rows.
         get_commits_for_repo_author g owner repo author start_date end_date = Inr ([], rows) \<and>
         map Inr rows =
           map (commit_details owner repo)
             (map (nth cs) (filter (defines_pr_at cs) [0..<length cs]) @
              map (nth cs) (filter (standalone_at cs) [0..<length cs])) \<and>
         sorted_wrt (<) (filter (defines_pr_at cs) [0..<length cs]) \<and>
         sorted_wrt (<) (filter (standalone_at cs) [0..<length cs]))) \<and>
   (\<forall>printed rows.
      get_commits_for_repo_author g owner repo author start_date end_date = Inr (printed, rows) \<longrightarrow>
      rows = [] \<or>
      (\<exists>rp cs.
         get_repo g (owner @ ''/'' @ repo) = Inr rp \<and>
         get_commits rp author start_date end_date = Inr cs \<and>
         map Inr rows =
           map (commit_details owner repo)
             (map (nth cs) (filter (defines_pr_at cs) [0..<length cs]) @
              map (nth cs) (filter (standalone_at cs) [0..<length cs]))))"
proof (intro conjI allI impI)
  fix rp cs
  assume a: "get_repo g (owner @ ''/'' @ repo) = Inr rp"
    "get_commits rp author start_date end_date = Inr cs"
    "\<forall>c\<in>set cs. \<exists>pulls. get_pulls c = Inr pulls"
    "\<forall>i<length cs. kept_at cs i \<longrightarrow> (\<exists>st. stats (cs ! i) = Inr st)"
  have "sorted_wrt (<) (filter (defines_pr_at cs) [0..<length cs])"
    and "sorted_wrt (<) (filter (standalone_at cs) [0..<length cs])"
    by (simp_all add: sorted_wrt_filter del: upt.simps)
  with commits_fetched[OF a]
  show "\<exists>rows.
         get_commits_for_repo_author g owner repo author start_date end_date = Inr ([], rows) \<and>
         map Inr rows =
           map (commit_details owner repo)
             (map (nth cs) (filter (defines_pr_at cs) [0..<length cs]) @
              map (nth cs) (filter (standalone_at cs) [0..<length cs])) \<and>
         sorted_wrt (<) (filter (defines_pr_at cs) [0..<length cs]) \<and>
         sorted_wrt (<) (filter (standalone_at cs) [0..<length cs])"
    by blast
next
  fix printed rows
  assume r: "get_commits_for_repo_author g owner repo author start_date end_date = Inr (printed, rows)"
  show "rows = [] \<or>
      (\<exists>rp cs.
         get_repo g (owner @ ''/'' @ repo) = Inr rp \<and>
         get_commits rp author start_date end_date = Inr cs \<and>
         map Inr rows =
           map (commit_details owner repo)
             (map (nth cs) (filter (defines_pr_at cs) [0..<length cs]) @
              map (nth cs) (filter (standalone_at cs) [0..<length cs])))"
    using commits_returned_rows[OF r] by blast
qed

theorem commit_output_order_witness:
  "get_commits_for_repo_author (example_client (Inr scenario_commits) no_results) ''org'' ''repo'' ''alice''
       example_start example_end =
     Inr ([], [example_row ''org'' ''repo'' ''a'', example_row ''org'' ''repo'' ''c'']) \<and>
   commit_details ''org'' ''repo'' (scenario_commits ! 0) = Inr (example_row ''org'' ''repo'' ''a'') \<and>
   commit_details ''org'' ''repo'' (scenario_commits ! 2) = Inr (example_row ''org'' ''repo'' ''c'') \<and>
   filter (defines_pr_at scenario_commits) [0..<length scenario_commits] = [0] \<and>
   filter (standalone_at scenario_commits) [0..<length scenario_commits] = [2]"
proof -
  have h1: "get_repo (example_client (Inr scenario_commits) no_results) (''org'' @ ''/'' @ ''repo'') =
              Inr \<lparr> get_commits = (\<lambda>_ _ _. Inr scenario_commits) \<rparr>"
    by (simp add: example_client_def)
  have h2: "get_commits \<lparr> get_commits = (\<lambda>_ _ _. Inr scenario_commits) \<rparr> ''alice''
              example_start example_end = Inr scenario_commits"
    by simp
  have h3: "\<forall>c\<in>set scenario_commits. \<exists>pulls. get_pulls c = Inr pulls"
    by (simp add: scenario_commits_def example_commit_def)
  have st: "\<forall>c\<in>set scenario_commits. \<exists>st. stats c = Inr st"
    by (simp add: scenario_commits_def example_commit_def)
  have h4: "\<forall>i<length scenario_commits. kept_at scenario_commits i \<longrightarrow>
              (\<exists>st. stats (scenario_commits ! i) = Inr st)"
    using st by simp
  have fd: "filter (defines_pr_at scenario_commits) [0..<length scenario_commits] = [0]"
    by (simp add: defines_pr_at_def single_prs_def linked_def
        scenario_commits_def example_commit_def eval_nat_numeral)
  have fs: "filter (standalone_at scenario_commits) [0..<length scenario_commits] = [2]"
    by (simp add: standalone_at_def linked_def
        scenario_commits_def example_commit_def eval_nat_numeral)
  have ns: "scenario_commits ! 0 = example_commit ''a'' (Inr [101])"
    "scenario_commits ! 2 = example_commit ''c'' (Inr [])"
    by (simp_all add: scenario_commits_def eval_nat_numeral)
  from commit_output_order[THEN conjunct1, THEN spec, THEN spec, THEN mp, THEN mp, THEN mp,
      THEN mp, OF h1 h2 h3 h4]
  obtain rows where
    r: "get_commits_for_repo_author (example_client (Inr scenario_commits) no_results)
          ''org'' ''repo'' ''alice'' example_start example_end = Inr ([], rows)"
    and m: "map Inr rows =
              map (commit_details ''org'' ''repo'')
                (map (nth scenario_commits)
                   (filter (defines_pr_at scenario_commits) [0..<length scenario_commits]) @
                 map (nth scenario_commits)
                   (filter (standalone_at scenario_commits) [0..<length scenario_commits]))"
    by blast
  from m have "map Inr rows =
                 [Inr (example_row ''org'' ''repo'' ''a'') :: py_exn + commit_row,
                  Inr (example_row ''org'' ''repo'' ''c'')]"
    unfolding fd fs by (simp add: ns example_details)
  then have "rows = [example_row ''org'' ''repo'' ''a'', example_row ''org'' ''repo'' ''c'']"
    by (auto simp: map_eq_Cons_conv)
  with r fd fs show ?thesis by (simp add: ns example_details)
qed

section \<open>The aggregator: deduplication of the resolved items\<close>

lemma drop_duplicates_seen_keys:
  "set (map key (drop_duplicates_seen key seen xs)) = set (map key xs) - set seen"
  by (induction xs arbitrary: seen) auto

lemma drop_duplicates_seen_distinct:
  "distinct (map key (drop_duplicates_seen key seen xs))"
proof (induction xs arbitrary: seen)
  case Nil
  show ?case by simp
next
  case (Cons x xs)
  have "key x \<notin> set (map key (drop_duplicates_seen key (key x # seen) xs))"
    unfolding drop_duplicates_seen_keys by simp
  with Cons.IH show ?case by simp
qed

lemma drop_duplicates_seen_first:
  "r \<in> set (drop_duplicates_seen key seen xs) \<Longrightarrow> find (\<lambda>x. key x = key r) xs = Some r"
proof (induction xs arbitrary: seen)
  case Nil
  then show ?case by simp
next
  case (Cons x xs)
  show ?case
  proof (cases "key x \<in> set seen")
    case True
    with Cons.prems have r: "r \<in> set (drop_duplicates_seen key seen xs)" by simp
    then have "key r \<in> set (map key (drop_duplicates_seen key seen xs))" by simp
    then have "key r \<notin> set seen" unfolding drop_duplicates_seen_keys by simp
    with True have "key x \<noteq> key r" by auto
    with Cons.IH[OF r] show ?thesis by simp
  next
    case False
    show ?thesis
    proof (cases "r = x")
      case True
      then show ?thesis by simp
    next
      case ne: False
      with False Cons.prems have r: "r \<in> set (drop_duplicates_seen key (key x # seen) xs)" by simp
      then have "key r \<in> set (map key (drop_duplicates_seen key (key x # seen) xs))" by simp
      then have "key x \<noteq> key r" unfolding drop_duplicates_seen_keys by auto
      with Cons.IH[OF r] show ?thesis by simp
    qed
  qed
qed

lemma extend_all_Inr:
  "extend_all futures acc = Inr out \<Longrightarrow>
     futures = map Inr (map rows_of futures) \<and> out = acc @ concat (map rows_of futures)"
  by (induction futures acc rule: extend_all.induct) (auto simp: rows_of_def)

lemma extend_all_rows: "extend_all (map Inr rowss) acc = Inr (acc @ concat rowss)"
  by (induction rowss arbitrary: acc) auto

lemma aggregate_Inr:
  assumes "aggregate pi_id completed_commits completed_resolved = Inr rep"
  shows "authored_commits rep = concat (map rows_of completed_commits)"
    and "resolved rep = drop_duplicates resolved_key (concat (map rows_of completed_resolved))"
    and "completed_commits = map Inr (map rows_of completed_commits)"
    and "completed_resolved = map Inr (map rows_of completed_resolved)"
proof -
  from assms obtain ac where ac: "extend_all completed_commits [] = Inr ac"
    by (auto simp: aggregate_def split: sum.splits)
  from assms ac obtain ar where ar: "extend_all completed_resolved [] = Inr ar"
    by (auto simp: aggregate_def split: sum.splits)
  from assms ac ar have rep: "authored_commits rep = ac" "resolved rep = drop_duplicates resolved_key ar"
    by (auto simp: aggregate_def)
  from extend_all_Inr[OF ac] extend_all_Inr[OF ar] rep
  show "authored_commits rep = concat (map rows_of completed_commits)"
    and "resolved rep = drop_duplicates resolved_key (concat (map rows_of completed_resolved))"
    and "completed_commits = map Inr (map rows_of completed_commits)"
    and "completed_resolved = map Inr (map rows_of completed_resolved)"
    by simp_all
qed

text \<open>
  Claim C2. Whenever the aggregator returns its two tables, the resolved-items table has no
  two rows with the same key (number, organization, repository); its keys are exactly the
  keys of the concatenated task results; and each surviving row is the first row with its
  key in the concatenation.
\<close>

theorem resolved_dedup:
  assumes "aggregate pi_id completed_commits completed_resolved = Inr rep"
  shows "distinct (map resolved_key (resolved rep)) \<and>
         set (map resolved_key (resolved rep)) =
           set (map resolved_key (concat (map rows_of completed_resolved))) \<and>
         (\<forall>r\<in>set (resolved rep).
            find (\<lambda>x. resolved_key x = resolved_key r) (concat (map rows_of completed_resolved)) =
              Some r)"
  unfolding aggregate_Inr(2)[OF assms] drop_duplicates_def
  using drop_duplicates_seen_distinct[of resolved_key "[]"]
    drop_duplicates_seen_keys[of resolved_key "[]"]
    drop_duplicates_seen_first[of _ resolved_key "[]"]
  by simp

text \<open>
  Two tasks surface item 7 of \<open>o/r\<close>, one for \<open>alice\<close> and one for \<open>bob\<close>: one row
  stays, the first.
\<close>

theorem resolved_dedup_witness:
  "\<exists>rep.
     aggregate ''pi-26.1'' []
         [Inr [resolved_details ''alice'' (example_item 7 ''o'' ''r'' False)],
          Inr [resolved_details ''bob'' (example_item 7 ''o'' ''r'' False)]] = Inr rep \<and>
     resolved rep = [resolved_details ''alice'' (example_item 7 ''o'' ''r'' False)] \<and>
     distinct (map resolved_key (resolved rep)) \<and>
     set (map resolved_key (resolved rep)) = {(7, ''o'', ''r'')} \<and>
     find (\<lambda>x. resolved_key x =
                  resolved_key (resolved_details ''alice'' (example_item 7 ''o'' ''r'' False)))
       [resolved_details ''alice'' (example_item 7 ''o'' ''r'' False),
        resolved_details ''bob'' (example_item 7 ''o'' ''r'' False)] =
       Some (resolved_details ''alice'' (example_item 7 ''o'' ''r'' False))"
proof -
  let ?ra = "resolved_details ''alice'' (example_item 7 ''o'' ''r'' False)"
  let ?rb = "resolved_details ''bob'' (example_item 7 ''o'' ''r'' False)"
  let ?rep = "\<lparr> authored_commits_csv = ''output/pi-26.1-authored-commits.csv'',
                 authored_commits = [],
                 resolved_csv = ''output/pi-26.1-resolved-issues-prs.csv'',
                 resolved = [?ra] \<rparr>"
  have keys: "resolved_key ?ra = (7, ''o'', ''r'')" "resolved_key ?rb = (7, ''o'', ''r'')"
    by (simp_all add: resolved_key_def resolved_details_def example_item_def)
  have agg: "aggregate ''pi-26.1'' [] [Inr [?ra], Inr [?rb]] = Inr ?rep"
    by (simp add: aggregate_def drop_duplicates_def keys)
  have rows: "concat (map rows_of [Inr [?ra], Inr [?rb]]) = [?ra, ?rb]"
    by (simp add: rows_of_def)
  from resolved_dedup[OF agg] have
    "distinct (map resolved_key (resolved ?rep))"
    "set (map resolved_key (resolved ?rep)) = set (map resolved_key [?ra, ?rb])"
    "find (\<lambda>x. resolved_key x = resolved_key ?ra) [?ra, ?rb] = Some ?ra"
    unfolding rows by simp_all
  with agg keys show ?thesis by simp
qed

section \<open>The resolved-item fetch task: the scope guard\<close>

lemma resolved_loop_eq:
  "resolved_loop tasks contributor items results =
     results @ map (resolved_details contributor)
                 (filter (\<lambda>i. (item_owner i, item_repo i, contributor) \<in> set tasks) items)"
  by (induction items arbitrary: results) auto

lemma resolved_rows_in_scope:
  assumes "get_resolved_for_contributor g tasks contributor start_date end_date =
             (queries, Inr (printed, rows))"
    and "r \<in> set rows"
  shows "\<exists>i. r = resolved_details contributor i \<and> (item_owner i, item_repo i, contributor) \<in> set tasks"
  using assms
  by (auto simp: get_resolved_for_contributor_def resolved_body_def Let_def resolved_loop_eq
      split: sum.splits prod.splits if_splits)

text \<open>
  Claim C3. Every row the task returns has an (organization, repository, contributor)
  triple that is in the task list, with the contributor the task was run for; and an item
  whose (owner, repository, contributor) triple is not in the task list has no row in the
  result.
\<close>

theorem task_scope_guard:
  assumes "get_resolved_for_contributor g tasks contributor start_date end_date =
             (queries, Inr (printed, rows))"
  shows "(\<forall>r\<in>set rows. (r_organization r, r_repository r, r_contributor r) \<in> set tasks \<and>
                        r_contributor r = contributor) \<and>
         (\<forall>i. (item_owner i, item_repo i, contributor) \<notin> set tasks \<longrightarrow>
               resolved_details contributor i \<notin> set rows)"
proof (intro conjI ballI allI impI)
  fix r assume "r \<in> set rows"
  from resolved_rows_in_scope[OF assms this]
  show "(r_organization r, r_repository r, r_contributor r) \<in> set tasks"
    and "r_contributor r = contributor"
    by (auto simp: resolved_details_def)
next
  fix i :: item assume out: "(item_owner i, item_repo i, contributor) \<notin> set tasks"
  show "resolved_details contributor i \<notin> set rows"
  proof
    assume "resolved_details contributor i \<in> set rows"
    from resolved_rows_in_scope[OF assms this] obtain j where
      "resolved_details contributor i = resolved_details contributor j"
      "(item_owner j, item_repo j, contributor) \<in> set tasks" by blast
    then have "(item_owner i, item_repo i, contributor) \<in> set tasks"
      by (simp add: resolved_details_def)
    with out show False by simp
  qed
qed

text \<open>
  Tasks \<open>[(org, repo, alice)]\<close>; the search returns one item of \<open>org/repo\<close> and one
  of \<open>org/other\<close>: only the first is returned.
\<close>

theorem task_scope_guard_witness:
  "snd (get_resolved_for_contributor
          (example_client (Inr [])
             (issues_then_prs
                (Inr [example_item 7 ''org'' ''repo'' False, example_item 8 ''org'' ''other'' False])
                (Inr [])))
          [(''org'', ''repo'', ''alice'')] ''alice'' example_start example_end) =
     Inr ([], [resolved_details ''alice'' (example_item 7 ''org'' ''repo'' False)]) \<and>
   (r_organization (resolved_details ''alice'' (example_item 7 ''org'' ''repo'' False)),
    r_repository (resolved_details ''alice'' (example_item 7 ''org'' ''repo'' False)),
    r_contributor (resolved_details ''alice'' (example_item 7 ''org'' ''repo'' False)))
     \<in> set [(''org'', ''repo'', ''alice'')] \<and>
   (item_owner (example_item 8 ''org'' ''other'' False),
    item_repo (example_item 8 ''org'' ''other'' False), ''alice'') \<notin> set [(''org'', ''repo'', ''alice'')] \<and>
   resolved_details ''alice'' (example_item 8 ''org'' ''other'' False) \<notin>
     set [resolved_details ''alice'' (example_item 7 ''org'' ''repo'' False)]"
proof -
  let ?g = "example_client (Inr [])
             (issues_then_prs
                (Inr [example_item 7 ''org'' ''repo'' False, example_item 8 ''org'' ''other'' False])
                (Inr []))"
  let ?run = "get_resolved_for_contributor ?g [(''org'', ''repo'', ''alice'')] ''alice''
                example_start example_end"
  let ?r7 = "resolved_details ''alice'' (example_item 7 ''org'' ''repo'' False)"
  have out: "(item_owner (example_item 8 ''org'' ''other'' False),
              item_repo (example_item 8 ''org'' ''other'' False), ''alice'')
               \<notin> set [(''org'', ''repo'', ''alice'')]"
    by (simp add: example_item_def)
  have s: "snd ?run = Inr ([], [?r7])"
    by (simp add: get_resolved_for_contributor_def resolved_body_def Let_def example_client_def
        issues_then_prs_def example_item_def split: prod.splits)
  then have run: "?run = (fst ?run, Inr ([], [?r7]))"
    by (metis prod.collapse)
  from task_scope_guard[OF run] out s show ?thesis by simp
qed

section \<open>The resolved-item fetch task: the search queries\<close>

lemma digit_char_is_digit: "d < 10 \<Longrightarrow> is_digit (digit_char d)"
proof -
  assume "d < 10"
  then have "d \<in> {0,1,2,3,4,5,6,7,8,9}" by auto
  then show ?thesis
    by (auto simp: is_digit_def digit_char_def eval_nat_numeral)
qed

lemma decimal_digits: "list_all is_digit (decimal n)"
proof (induction n rule: decimal.induct)
  case (1 n)
  show ?case
  proof (cases "n < 10")
    case True
    then show ?thesis by (subst decimal.simps) (simp add: digit_char_is_digit)
  next
    case False
    with 1 show ?thesis by (subst decimal.simps) (simp add: digit_char_is_digit)
  qed
qed

lemma length_decimal: "0 < k \<Longrightarrow> n < 10 ^ k \<Longrightarrow> length (decimal n) \<le> k"
proof (induction k arbitrary: n)
  case 0
  then show ?case by simp
next
  case (Suc k)
  show ?case
  proof (cases "n < 10")
    case True
    then show ?thesis by (subst decimal.simps) simp
  next
    case False
    then have k: "0 < k" using Suc.prems(2) by (cases k) auto
    have "n div 10 < 10 ^ k" using Suc.prems(2) by (simp add: less_mult_imp_div_less mult.commute)
    from Suc.IH[OF k this] False show ?thesis by (subst decimal.simps) simp
  qed
qed

lemma zero_pad_shape:
  assumes "0 < k" "n < 10 ^ k"
  shows "length (zero_pad k (decimal n)) = k" and "list_all is_digit (zero_pad k (decimal n))"
proof -
  from length_decimal[OF assms] show "length (zero_pad k (decimal n)) = k"
    by (simp add: zero_pad_def)
  have "is_digit CHR ''0''" by (simp add: is_digit_def)
  then show "list_all is_digit (zero_pad k (decimal n))"
    using decimal_digits[of n] by (auto simp: zero_pad_def list_all_iff)
qed

lemma length_decimal_lower: "10 ^ k \<le> n \<Longrightarrow> k < length (decimal n)"
proof (induction k arbitrary: n)
  case 0
  show ?case by (subst decimal.simps) simp
next
  case (Suc k)
  then have big: "\<not> n < 10"
    by (metis less_le_trans not_le one_le_numeral one_le_power power_Suc2 mult.commute
        mult_le_mono1 nat_mult_1)
  have "10 ^ k \<le> n div 10" using Suc.prems by (simp add: less_eq_div_iff_mult_less_eq mult.commute)
  from Suc.IH[OF this] big show ?case by (subst decimal.simps) simp
qed

lemma strftime_shape:
  assumes "valid_datetime d"
  shows "date_shaped (strftime_Y_m_d d) \<longleftrightarrow> 1000 \<le> year d"
proof -
  let ?Y = "decimal (year d)"
  let ?M = "zero_pad 2 (decimal (month d))"
  let ?D = "zero_pad 2 (decimal (day d))"
  have m: "month d < 10 ^ 2" and dd: "day d < 10 ^ 2"
    using assms by (simp_all add: valid_datetime_def)
  have dy: "list_all is_digit ?Y" by (rule decimal_digits)
  have lm: "length ?M = 2" and dm: "list_all is_digit ?M"
    using zero_pad_shape[OF _ m] by simp_all
  have ld: "length ?D = 2" and ddd: "list_all is_digit ?D"
    using zero_pad_shape[OF _ dd] by simp_all
  have s: "strftime_Y_m_d d = ?Y @ CHR ''-'' # ?M @ CHR ''-'' # ?D"
    by (simp add: strftime_Y_m_d_def)
  show ?thesis
  proof (cases "1000 \<le> year d")
    case True
    have "year d < 10 ^ 4" using assms by (simp add: valid_datetime_def)
    from length_decimal[OF _ this] have "length ?Y \<le> 4" by simp
    moreover from True have "10 ^ 3 \<le> year d" by simp
    from length_decimal_lower[OF this] have "3 < length ?Y" .
    ultimately have ly: "length ?Y = 4" by simp
    have "date_shaped (strftime_Y_m_d d)"
      unfolding s date_shaped_def
      using ly dy lm dm ld ddd by (simp add: nth_append)
    with True show ?thesis by simp
  next
    case False
    then have "year d < 10 ^ 3" by simp
    from length_decimal[OF _ this] have "length ?Y \<le> 3" by simp
    then have "length (strftime_Y_m_d d) \<noteq> 10" unfolding s using lm ld by simp
    then have "\<not> date_shaped (strftime_Y_m_d d)" by (simp add: date_shaped_def)
    with False show ?thesis by simp
  qed
qed

lemma join_sublist: "x \<in> set xs \<Longrightarrow> sublist x (join sep xs)"
proof (induction sep xs rule: join.induct)
  case (1 sep)
  then show ?case by simp
next
  case (2 sep y)
  then show ?case by simp
next
  case (3 sep y z zs)
  show ?case
  proof (cases "x = y")
    case True
    then show ?thesis by simp
  next
    case False
    with 3 have "sublist x (join sep (z # zs))" by simp
    then obtain ps ss where "join sep (z # zs) = ps @ x @ ss"
      unfolding sublist_def by blast
    then have "join sep (y # z # zs) = (y @ sep @ ps) @ x @ ss" by simp
    then show ?thesis unfolding sublist_def by blast
  qed
qed

lemma resolved_queries_issued:
  "fst (get_resolved_for_contributor g tasks contributor start_date end_date) =
     (case search_issues g (''is:issue '' @ base_query tasks contributor start_date end_date) of
        Inl _ \<Rightarrow> [''is:issue '' @ base_query tasks contributor start_date end_date]
      | Inr _ \<Rightarrow>
          [''is:issue '' @ base_query tasks contributor start_date end_date,
           ''is:pr '' @ base_query tasks contributor start_date end_date @ '' -author:'' @ contributor])"
  by (simp add: get_resolved_for_contributor_def resolved_body_def Let_def split: sum.splits)

text \<open>
  Claim C7, as the code has it. The task sends the query \<^verbatim>\<open>is:issue\<close> followed by the
  filter string first and, when the issues have been listed, the query \<^verbatim>\<open>is:pr\<close>
  followed by the same filter string and \<^verbatim>\<open>-author:\<close> with the contributor second; it
  sends no other: two queries when the first search returns, one when it fails. The filter
  string is the \<^verbatim>\<open>repo:\<close> qualifiers of the whole task list, then \<^verbatim>\<open>involves:\<close> with
  the contributor, then \<^verbatim>\<open>closed:\<close> with the two dates; it contains
  \<^verbatim>\<open>repo:owner/repo\<close> for every task. A date in the range of \<^verbatim>\<open>datetime\<close> has the
  shape \<^verbatim>\<open>YYYY-MM-DD\<close> exactly when its year is 1000 or later; the year of an earlier
  date is printed with fewer digits.
\<close>

theorem resolved_queries:
  assumes "valid_datetime start_date" and "valid_datetime end_date"
  shows "fst (get_resolved_for_contributor g tasks contributor start_date end_date) =
           (case search_issues g (''is:issue '' @ base_query tasks contributor start_date end_date) of
              Inl _ \<Rightarrow> [''is:issue '' @ base_query tasks contributor start_date end_date]
            | Inr _ \<Rightarrow>
                [''is:issue '' @ base_query tasks contributor start_date end_date,
                 ''is:pr '' @ base_query tasks contributor start_date end_date
                    @ '' -author:'' @ contributor]) \<and>
         base_query tasks contributor start_date end_date =
           repo_filters tasks @ '' involves:'' @ contributor @ '' closed:''
             @ strftime_Y_m_d start_date @ ''..'' @ strftime_Y_m_d end_date \<and>
         (\<forall>(owner, repo, username) \<in> set tasks.
            sublist (''repo:'' @ owner @ ''/'' @ repo) (repo_filters tasks)) \<and>
         (date_shaped (strftime_Y_m_d start_date) \<longleftrightarrow> 1000 \<le> year start_date) \<and>
         (date_shaped (strftime_Y_m_d end_date) \<longleftrightarrow> 1000 \<le> year end_date)"
proof -
  have rf: "\<forall>(owner, repo, username) \<in> set tasks.
              sublist (''repo:'' @ owner @ ''/'' @ repo) (repo_filters tasks)"
  proof (clarify)
    fix owner repo username
    assume "(owner, repo, username) \<in> set tasks"
    then have "(''repo:'' @ owner @ ''/'' @ repo)
                 \<in> set (map (\<lambda>(owner, repo, _). ''repo:'' @ owner @ ''/'' @ repo) tasks)"
      by force
    then show "sublist (''repo:'' @ owner @ ''/'' @ repo) (repo_filters tasks)"
      unfolding repo_filters_def by (rule join_sublist)
  qed
  have bq: "base_query tasks contributor start_date end_date =
           repo_filters tasks @ '' involves:'' @ contributor @ '' closed:''
             @ strftime_Y_m_d start_date @ ''..'' @ strftime_Y_m_d end_date"
    by (simp add: base_query_def Let_def)
  show ?thesis
    using resolved_queries_issued[of g tasks contributor start_date end_date] bq rf
      strftime_shape[OF assms(1)] strftime_shape[OF assms(2)]
    by blast
qed

lemma example_dates:
  "strftime_Y_m_d example_start = ''2026-01-05''" "strftime_Y_m_d example_end = ''2026-03-27''"
  by (simp_all add: strftime_Y_m_d_def example_start_def example_end_def zero_pad_def
      decimal.simps digit_char_def)

theorem resolved_queries_witness:
  "fst (get_resolved_for_contributor (example_client (Inr []) no_results)
          [(''org'', ''repo'', ''alice''), (''org'', ''tools'', ''bob'')] ''alice''
          example_start example_end) =
     [''is:issue repo:org/repo repo:org/tools involves:alice closed:2026-01-05..2026-03-27'',
      ''is:pr repo:org/repo repo:org/tools involves:alice closed:2026-01-05..2026-03-27 -author:alice''] \<and>
   sublist ''repo:org/repo'' (repo_filters [(''org'', ''repo'', ''alice''), (''org'', ''tools'', ''bob'')]) \<and>
   sublist ''repo:org/tools'' (repo_filters [(''org'', ''repo'', ''alice''), (''org'', ''tools'', ''bob'')]) \<and>
   date_shaped ''2026-01-05'' \<and> date_shaped ''2026-03-27''"
proof -
  have v: "valid_datetime example_start" "valid_datetime example_end"
    by (simp_all add: valid_datetime_def example_start_def example_end_def)
  have y: "1000 \<le> year example_start" "1000 \<le> year example_end"
    by (simp_all add: example_start_def example_end_def)
  have bq: "base_query [(''org'', ''repo'', ''alice''), (''org'', ''tools'', ''bob'')] ''alice''
              example_start example_end =
            ''repo:org/repo repo:org/tools involves:alice closed:2026-01-05..2026-03-27''"
    by (simp add: base_query_def repo_filters_def example_dates)
  have s: "search_issues (example_client (Inr []) no_results) q = Inr []" for q
    by (simp add: example_client_def no_results_def)
  from resolved_queries[OF v, of "example_client (Inr []) no_results"
      "[(''org'', ''repo'', ''alice''), (''org'', ''tools'', ''bob'')]" "''alice''"]
  show ?thesis
    unfolding bq example_dates s using y by simp
qed

text \<open>
  When the first search fails, the handler ends the task: the second query is never sent,
  and one query has been issued, not two. And the fifth of January of the year 999, which
  \<^verbatim>\<open>datetime\<close> accepts, is printed as \<^verbatim>\<open>999-01-05\<close>, which is not of the shape
  \<^verbatim>\<open>YYYY-MM-DD\<close>.
\<close>

theorem resolved_queries_counterexample:
  "fst (get_resolved_for_contributor
          (example_client (Inr []) (search_raises (PyExn ConnectionError ''unreachable'')))
          [(''org'', ''repo'', ''alice'')] ''alice'' example_start example_end) =
     [''is:issue repo:org/repo involves:alice closed:2026-01-05..2026-03-27''] \<and>
   valid_datetime \<lparr> year = 999, month = 1, day = 5 \<rparr> \<and>
   strftime_Y_m_d \<lparr> year = 999, month = 1, day = 5 \<rparr> = ''999-01-05'' \<and>
   \<not> date_shaped ''999-01-05''"
proof -
  have "fst (get_resolved_for_contributor
          (example_client (Inr []) (search_raises (PyExn ConnectionError ''unreachable'')))
          [(''org'', ''repo'', ''alice'')] ''alice'' example_start example_end) =
     [''is:issue repo:org/repo involves:alice closed:2026-01-05..2026-03-27'']"
    by (simp add: resolved_queries_issued example_client_def search_raises_def base_query_def
        repo_filters_def example_dates)
  moreover have "valid_datetime \<lparr> year = 999, month = 1, day = 5 \<rparr>"
    by (simp add: valid_datetime_def)
  moreover have "strftime_Y_m_d \<lparr> year = 999, month = 1, day = 5 \<rparr> = ''999-01-05''"
    by (simp add: strftime_Y_m_d_def zero_pad_def decimal.simps digit_char_def)
  moreover have "\<not> date_shaped ''999-01-05''"
    by (simp add: date_shaped_def)
  ultimately show ?thesis by simp
qed

section \<open>Failures inside a fetch task\<close>






lemma commits_handler:
  "commits_body g owner repo author start_date end_date = Inl x \<Longrightarrow>
   get_commits_for_repo_author g owner repo author start_date end_date =
     (if is_Exception (cls x)
      then Inr ([''  Error processing '' @ owner @ ''/'' @ repo @ '' for '' @ author @ '': '' @ exn_str x], [])
      else Inl x)"
  by (simp add: get_commits_for_repo_author_def commits_error_line_def)




text \<open>
  The body of a \<^verbatim>\<open>try\<close> block raises what the first failing remote call raises.
\<close>

lemma group_commits_raises:
  "\<forall>d\<in>set before. \<exists>pulls. get_pulls d = Inr pulls \<Longrightarrow> get_pulls c = Inl x \<Longrightarrow>
   group_commits (before @ c # after) prs pr_commits standalone_commits = Inl x"
  by (induction before arbitrary: prs pr_commits standalone_commits) auto

lemma commits_body_raises:
  "get_repo g (owner @ ''/'' @ repo) = Inl x \<Longrightarrow>
     commits_body g owner repo author start_date end_date = Inl x"
  "get_repo g (owner @ ''/'' @ repo) = Inr rp \<Longrightarrow> get_commits rp author start_date end_date = Inl x \<Longrightarrow>
     commits_body g owner repo author start_date end_date = Inl x"
  "get_repo g (owner @ ''/'' @ repo) = Inr rp \<Longrightarrow>
   get_commits rp author start_date end_date = Inr (before @ c # after) \<Longrightarrow>
   \<forall>d\<in>set before. \<exists>pulls. get_pulls d = Inr pulls \<Longrightarrow> get_pulls c = Inl x \<Longrightarrow>
     commits_body g owner repo author start_date end_date = Inl x"
  "get_repo g (owner @ ''/'' @ repo) = Inr rp \<Longrightarrow>
   get_commits rp author start_date end_date = Inr cs \<Longrightarrow>
   group_commits cs [] [] [] = Inr (pr_commits, standalone_commits) \<Longrightarrow>
   pr_commits @ standalone_commits = before @ c # after \<Longrightarrow>
   \<forall>d\<in>set before. \<exists>st. stats d = Inr st \<Longrightarrow> stats c = Inl x \<Longrightarrow>
     commits_body g owner repo author start_date end_date = Inl x"
  by (simp_all add: commits_body_def group_commits_raises extract_details_raises)

lemma resolved_body_raises:
  "search_issues g (''is:issue '' @ base_query tasks contributor start_date end_date) = Inl x \<Longrightarrow>
     snd (resolved_body g tasks contributor start_date end_date) = Inl x"
  "search_issues g (''is:issue '' @ base_query tasks contributor start_date end_date) = Inr issues \<Longrightarrow>
   search_issues g (''is:pr '' @ base_query tasks contributor start_date end_date
                      @ '' -author:'' @ contributor) = Inl x \<Longrightarrow>
     snd (resolved_body g tasks contributor start_date end_date) = Inl x"
  by (simp_all add: resolved_body_def Let_def)




text \<open>
  Claim C5, as the code has it. The handler of the commit fetch does not tell an unexpected
  error from a failed remote call: an exception raised inside the classification loop is
  printed and turned into the empty result whenever its class derives from \<open>Exception\<close>,
  and leaves the task only otherwise (\<open>KeyboardInterrupt\<close>, \<open>SystemExit\<close>).
\<close>

theorem unexpected_error_handling:
  assumes "get_repo g (owner @ ''/'' @ repo) = Inr rp"
    and "get_commits rp author start_date end_date = Inr cs"
    and "group_commits cs [] [] [] = Inl x"
  shows "get_commits_for_repo_author g owner repo author start_date end_date =
           (if is_Exception (cls x)
            then Inr ([''  Error processing '' @ owner @ ''/'' @ repo @ '' for '' @ author @ '': ''
                         @ exn_str x], [])
            else Inl x)"
proof -
  have "commits_body g owner repo author start_date end_date = Inl x"
    using assms by (simp add: commits_body_def)
  then show ?thesis by (rule commits_handler)
qed

theorem unexpected_error_handling_witness:
  "get_commits_for_repo_author
       (example_client
          (Inr [example_commit ''a'' (Inr [101]),
                example_commit ''b'' (Inl (PyExn AttributeError ''no attribute number''))])
          no_results)
       ''org'' ''repo'' ''alice'' example_start example_end =
     Inr ([''  Error processing org/repo for alice: no attribute number''], [])"
proof -
  let ?cs = "[example_commit ''a'' (Inr [101]),
              example_commit ''b'' (Inl (PyExn AttributeError ''no attribute number''))]"
  have h1: "get_repo (example_client (Inr ?cs) no_results) (''org'' @ ''/'' @ ''repo'') =
              Inr \<lparr> get_commits = (\<lambda>_ _ _. Inr ?cs) \<rparr>"
    by (simp add: example_client_def)
  have h2: "get_commits \<lparr> get_commits = (\<lambda>_ _ _. Inr ?cs) \<rparr> ''alice'' example_start example_end =
              Inr ?cs"
    by simp
  have h3: "group_commits ?cs [] [] [] = Inl (PyExn AttributeError ''no attribute number'')"
    by (simp add: example_commit_def)
  from unexpected_error_handling[OF h1 h2 h3] show ?thesis by simp
qed

text \<open>
  A \<open>TypeError\<close> raised inside the classification loop does not leave the task: the
  task prints it and returns the empty list.
\<close>

theorem unexpected_error_handling_counterexample:
  "group_commits [example_commit ''a'' (Inl (PyExn TypeError ''bad operand''))] [] [] [] =
     Inl (PyExn TypeError ''bad operand'') \<and>
   get_commits_for_repo_author
       (example_client (Inr [example_commit ''a'' (Inl (PyExn TypeError ''bad operand''))]) no_results)
       ''org'' ''repo'' ''alice'' example_start example_end =
     Inr ([''  Error processing org/repo for alice: bad operand''], [])"
  by (simp add: get_commits_for_repo_author_def commits_body_def commits_error_line_def
      example_client_def example_commit_def)

section \<open>The entry point\<close>

lemma insort_key_fst_map:
  "insort_key (\<lambda>p. f (fst p)) (i, g x) (map (\<lambda>p. (fst p, g (snd p))) ps) =
     map (\<lambda>p. (fst p, g (snd p))) (insort_key (\<lambda>p. f (fst p)) (i, x) ps)"
  by (induction ps) auto

lemma sort_key_fst_map:
  "sort_key (\<lambda>p. f (fst p)) (map (\<lambda>p. (fst p, g (snd p))) ps) =
     map (\<lambda>p. (fst p, g (snd p))) (sort_key (\<lambda>p. f (fst p)) ps)"
proof (induction ps)
  case Nil
  show ?case by simp
next
  case (Cons p ps)
  obtain i x where p: "p = (i, x)" by (cases p)
  show ?case using Cons.IH insort_key_fst_map[of f i g x] by (simp add: p)
qed

lemma enumerate_map: "enumerate n (map g xs) = map (\<lambda>p. (fst p, g (snd p))) (enumerate n xs)"
  by (induction xs arbitrary: n) auto

lemma as_completed_map: "as_completed finish (map g xs) = map g (as_completed finish xs)"
  by (simp add: as_completed_def enumerate_map sort_key_fst_map comp_def)

lemma mset_as_completed: "mset (as_completed finish xs) = mset xs"
proof -
  have "mset (as_completed finish xs) = image_mset snd (mset (enumerate 0 xs))"
    by (simp add: as_completed_def)
  also have "\<dots> = mset (map snd (enumerate 0 xs))" by (simp only: mset_map)
  also have "\<dots> = mset xs" by (simp only: map_snd_enumerate)
  finally show ?thesis .
qed

lemma count_list_concat: "count_list (concat xss) r = sum_list (map (\<lambda>xs. count_list xs r) xss)"
  by (induction xss) auto

lemma sum_list_map_mset:
  fixes h :: "'a \<Rightarrow> nat"
  assumes "mset ys = mset xs"
  shows "sum_list (map h ys) = sum_list (map h xs)"
proof -
  have "sum_list (map h ys) = sum_mset (mset (map h ys))" by (simp only: sum_mset_sum_list)
  also have "\<dots> = sum_mset (mset (map h xs))" using assms by simp
  also have "\<dots> = sum_list (map h xs)" by (simp only: sum_mset_sum_list)
  finally show ?thesis .
qed

lemma count_times_le_sum:
  fixes h :: "'a \<Rightarrow> nat"
  shows "count_list xs t * h t \<le> sum_list (map h xs)"
  by (induction xs) auto

lemma main_Inr:
  assumes "main env token pi_arg max_workers = (submitted, Inr rep)"
  shows "\<exists>time_start time_end.
           time_bounds env (requested_pi env pi_arg) = Inr (time_start, time_end) \<and>
           get_repos_x_contributors_for_pi env (requested_pi env pi_arg) \<noteq> [] \<and>
           0 < max_workers \<and>
           aggregate (requested_pi env pi_arg)
             (as_completed (commits_done env)
                (map (process_commits_task env token time_start time_end)
                   (get_repos_x_contributors_for_pi env (requested_pi env pi_arg))))
             (as_completed (resolved_done env)
                (map (process_resolved_task env token
                        (get_repos_x_contributors_for_pi env (requested_pi env pi_arg))
                        time_start time_end)
                   (map snd (get_contributors_for_pi env (requested_pi env pi_arg))))) = Inr rep"
proof (cases "time_bounds env (requested_pi env pi_arg)")
  case (Inl e)
  with assms show ?thesis by (simp add: main_def)
next
  case (Inr bounds)
  obtain time_start time_end where b: "bounds = (time_start, time_end)" by (cases bounds)
  show ?thesis
  proof (cases "get_repos_x_contributors_for_pi env (requested_pi env pi_arg) = []")
    case True
    with assms Inr b show ?thesis by (simp add: main_def)
  next
    case False
    then have l: "\<not> length (get_repos_x_contributors_for_pi env (requested_pi env pi_arg)) < 1"
      by (cases "get_repos_x_contributors_for_pi env (requested_pi env pi_arg)") simp_all
    show ?thesis
    proof (cases "max_workers \<le> 0")
      case True
      with assms Inr b l show ?thesis by (simp add: main_def Let_def)
    next
      case w: False
      with assms Inr b l False show ?thesis by (simp add: main_def Let_def)
    qed
  qed
qed

lemma example_time_bounds:
  "time_bounds (example_env g tasks contributors) ''pi-26.1'' = Inr (example_start, example_end)"
  by (simp add: time_bounds_def example_env_def)

lemma example_standalone_rows:
  "process_commits_task
       (example_env (example_client (Inr [example_commit ''c'' (Inr [])]) no_results) tasks contributors)
       None example_start example_end (''org'', ''repo'', ''alice'') =
     Inr [example_row ''org'' ''repo'' ''c'']"
  by (simp add: process_commits_task_def make_client_def example_env_def example_client_def
      get_commits_for_repo_author_def commits_body_def example_commit_fields example_details)

text \<open>
  Claim C6. When the requested interval has no date range, \<^verbatim>\<open>main\<close> raises the
  \<open>ValueError\<close> of line 151 and has submitted no task. When the configuration yields no
  task triple, \<^verbatim>\<open>main\<close> ends with an exception and has submitted no task, neither a
  commit fetch nor a resolved-item fetch; with a date range that is known and parses, that
  exception is the \<open>ValueError\<close> of line 165. Every call of the client is made inside a
  submitted task, so none is made.
\<close>

theorem configuration_errors_fail_fast:
  "(get_time_range env (requested_pi env pi_arg) = None \<longrightarrow>
      main env token pi_arg max_workers =
        ([], Inl (PyExn ValueError (''No date range found for PI: '' @ requested_pi env pi_arg)))) \<and>
   (get_repos_x_contributors_for_pi env (requested_pi env pi_arg) = [] \<longrightarrow>
      fst (main env token pi_arg max_workers) = [] \<and>
      (\<exists>e. snd (main env token pi_arg max_workers) = Inl e) \<and>
      (\<forall>bounds. time_bounds env (requested_pi env pi_arg) = Inr bounds \<longrightarrow>
         main env token pi_arg max_workers =
           ([], Inl (PyExn ValueError ''No repos x contributors found in config.''))))"
proof (intro conjI impI allI)
  assume "get_time_range env (requested_pi env pi_arg) = None"
  then show "main env token pi_arg max_workers =
        ([], Inl (PyExn ValueError (''No date range found for PI: '' @ requested_pi env pi_arg)))"
    by (simp add: main_def time_bounds_def)
next
  assume e: "get_repos_x_contributors_for_pi env (requested_pi env pi_arg) = []"
  show "fst (main env token pi_arg max_workers) = []"
    using e by (cases "time_bounds env (requested_pi env pi_arg)") (auto simp: main_def)
  show "\<exists>e. snd (main env token pi_arg max_workers) = Inl e"
    using e by (cases "time_bounds env (requested_pi env pi_arg)") (auto simp: main_def)
  fix bounds assume "time_bounds env (requested_pi env pi_arg) = Inr bounds"
  with e show "main env token pi_arg max_workers =
           ([], Inl (PyExn ValueError ''No repos x contributors found in config.''))"
    by (cases bounds) (simp add: main_def)
qed

theorem configuration_errors_fail_fast_witness:
  "main (example_env (example_client (Inr []) no_results)
           [(''org'', ''repo'', ''alice'')] [(''Alice'', ''alice'')])
       None (Some ''pi-99.9'') 10 =
     ([], Inl (PyExn ValueError ''No date range found for PI: pi-99.9'')) \<and>
   main (example_env (example_client (Inr []) no_results) [] [(''Alice'', ''alice'')])
       None None 10 =
     ([], Inl (PyExn ValueError ''No repos x contributors found in config.''))"
proof -
  let ?e1 = "example_env (example_client (Inr []) no_results)
               [(''org'', ''repo'', ''alice'')] [(''Alice'', ''alice'')]"
  let ?e2 = "example_env (example_client (Inr []) no_results) [] [(''Alice'', ''alice'')]"
  have p1: "requested_pi ?e1 (Some ''pi-99.9'') = ''pi-99.9''" by (simp add: requested_pi_def)
  have u: "get_time_range ?e1 (requested_pi ?e1 (Some ''pi-99.9'')) = None"
    by (simp add: requested_pi_def example_env_def)
  have p2: "requested_pi ?e2 None = ''pi-26.1''" by (simp add: requested_pi_def example_env_def)
  have z: "get_repos_x_contributors_for_pi ?e2 (requested_pi ?e2 None) = []"
    by (simp add: example_env_def)
  have b: "time_bounds ?e2 (requested_pi ?e2 None) = Inr (example_start, example_end)"
    unfolding p2 by (rule example_time_bounds)
  note first = configuration_errors_fail_fast[of ?e1 "Some ''pi-99.9''" None 10,
      THEN conjunct1, rule_format, OF u]
  note second = configuration_errors_fail_fast[of ?e2 None None 10,
      THEN conjunct2, rule_format, OF z, THEN conjunct2, THEN conjunct2, rule_format, OF b]
  from first second show ?thesis unfolding p1 by simp
qed

text \<open>
  Claim C9. Whenever \<^verbatim>\<open>main\<close> returns its tables, the commit table is the concatenation
  of the rows of the commit tasks in the order of their completion, nothing removed: a row
  occurs in it as often as it occurs in the results of all tasks together, so a triple
  listed \<open>k\<close> times contributes each of its rows \<open>k\<close> times.
\<close>

theorem commits_not_deduplicated:
  assumes "main env token pi_arg max_workers = (submitted, Inr rep)"
  shows "\<exists>time_start time_end.
           time_bounds env (requested_pi env pi_arg) = Inr (time_start, time_end) \<and>
           authored_commits rep =
             concat (map (\<lambda>t. rows_of (process_commits_task env token time_start time_end t))
                       (as_completed (commits_done env)
                          (get_repos_x_contributors_for_pi env (requested_pi env pi_arg)))) \<and>
           (\<forall>r. count_list (authored_commits rep) r =
                  sum_list (map (\<lambda>t. count_list
                                        (rows_of (process_commits_task env token time_start time_end t)) r)
                              (get_repos_x_contributors_for_pi env (requested_pi env pi_arg)))) \<and>
           (\<forall>t r. count_list (get_repos_x_contributors_for_pi env (requested_pi env pi_arg)) t *
                     count_list (rows_of (process_commits_task env token time_start time_end t)) r
                   \<le> count_list (authored_commits rep) r)"
proof -
  let ?tasks = "get_repos_x_contributors_for_pi env (requested_pi env pi_arg)"
  from main_Inr[OF assms] obtain time_start time_end cr where
    tb: "time_bounds env (requested_pi env pi_arg) = Inr (time_start, time_end)"
    and agg: "aggregate (requested_pi env pi_arg)
                (as_completed (commits_done env)
                   (map (process_commits_task env token time_start time_end) ?tasks)) cr = Inr rep"
    by blast
  let ?rows = "\<lambda>t. rows_of (process_commits_task env token time_start time_end t)"
  have ac: "authored_commits rep = concat (map ?rows (as_completed (commits_done env) ?tasks))"
    using aggregate_Inr(1)[OF agg] by (simp add: as_completed_map comp_def)
  have cnt: "count_list (authored_commits rep) r =
               sum_list (map (\<lambda>t. count_list (?rows t) r) ?tasks)" for r
  proof -
    have "count_list (authored_commits rep) r =
            sum_list (map (\<lambda>t. count_list (?rows t) r) (as_completed (commits_done env) ?tasks))"
      unfolding ac count_list_concat by (simp add: comp_def)
    also have "\<dots> = sum_list (map (\<lambda>t. count_list (?rows t) r) ?tasks)"
      by (rule sum_list_map_mset) (rule mset_as_completed)
    finally show ?thesis .
  qed
  have le: "count_list ?tasks t * count_list (?rows t) r \<le> count_list (authored_commits rep) r" for t r
    unfolding cnt by (rule count_times_le_sum)
  from tb ac cnt le show ?thesis by blast
qed

theorem commits_not_deduplicated_witness:
  "\<exists>rep.
     main (example_env (example_client (Inr [example_commit ''c'' (Inr [])]) no_results)
             [(''org'', ''repo'', ''alice''), (''org'', ''repo'', ''alice'')] [])
         None None 10 =
       ([CommitsTask (''org'', ''repo'', ''alice''), CommitsTask (''org'', ''repo'', ''alice'')], Inr rep) \<and>
     authored_commits rep =
       [example_row ''org'' ''repo'' ''c'',
        example_row ''org'' ''repo'' ''c''] \<and>
     2 \<le> count_list (authored_commits rep) (example_row ''org'' ''repo'' ''c'')"
proof -
  let ?tasks = "[(''org'', ''repo'', ''alice''), (''org'', ''repo'', ''alice'')]"
  let ?env = "example_env (example_client (Inr [example_commit ''c'' (Inr [])]) no_results) ?tasks []"
  let ?row = "example_row ''org'' ''repo'' ''c''"
  let ?rep = "\<lparr> authored_commits_csv = ''output/pi-26.1-authored-commits.csv'',
                 authored_commits = [?row, ?row],
                 resolved_csv = ''output/pi-26.1-resolved-issues-prs.csv'',
                 resolved = [] \<rparr>"
  have p: "requested_pi ?env None = ''pi-26.1''" by (simp add: requested_pi_def example_env_def)
  have t: "get_repos_x_contributors_for_pi ?env ''pi-26.1'' = ?tasks"
    and c: "get_contributors_for_pi ?env ''pi-26.1'' = []"
    and d: "commits_done ?env = (\<lambda>i. i)"
    by (simp_all add: example_env_def)
  have m: "main ?env None None 10 =
             ([CommitsTask (''org'', ''repo'', ''alice''), CommitsTask (''org'', ''repo'', ''alice'')],
              Inr ?rep)"
    by (simp add: main_def Let_def p example_time_bounds t c d example_standalone_rows
        as_completed_def aggregate_def drop_duplicates_def)
  from commits_not_deduplicated[OF m] obtain time_start time_end where
    tb: "time_bounds ?env (requested_pi ?env None) = Inr (time_start, time_end)"
    and le: "\<forall>t r. count_list (get_repos_x_contributors_for_pi ?env (requested_pi ?env None)) t *
                     count_list (rows_of (process_commits_task ?env None time_start time_end t)) r
                   \<le> count_list (authored_commits ?rep) r"
    by blast
  from tb have ts: "time_start = example_start" "time_end = example_end"
    unfolding p example_time_bounds by simp_all
  from le[rule_format, of "(''org'', ''repo'', ''alice'')" ?row]
  have "2 \<le> count_list (authored_commits ?rep) ?row"
    unfolding p t ts example_standalone_rows by (simp add: rows_of_def)
  with m show ?thesis by simp
qed

text \<open>
  Claim C10. With a date range that is known and parses, a task list that is not empty, a
  pool width of at least one and no contributor, \<^verbatim>\<open>main\<close> raises no configuration error:
  it submits the commit tasks and no resolved-item task, its outcome is that of collecting
  the commit tasks, and the resolved-items table it returns is empty.
\<close>

theorem no_contributors_run:
  assumes "time_bounds env (requested_pi env pi_arg) = Inr (time_start, time_end)"
    and "get_repos_x_contributors_for_pi env (requested_pi env pi_arg) \<noteq> []"
    and "get_contributors_for_pi env (requested_pi env pi_arg) = []"
    and "0 < max_workers"
  shows "main env token pi_arg max_workers =
           (map CommitsTask (get_repos_x_contributors_for_pi env (requested_pi env pi_arg)),
            case extend_all
                   (as_completed (commits_done env)
                      (map (process_commits_task env token time_start time_end)
                         (get_repos_x_contributors_for_pi env (requested_pi env pi_arg)))) [] of
              Inl e \<Rightarrow> Inl e
            | Inr all_commits \<Rightarrow>
                Inr \<lparr> authored_commits_csv =
                        ''output/'' @ requested_pi env pi_arg @ ''-authored-commits.csv'',
                      authored_commits = all_commits,
                      resolved_csv =
                        ''output/'' @ requested_pi env pi_arg @ ''-resolved-issues-prs.csv'',
                      resolved = [] \<rparr>)"
proof -
  have l: "\<not> length (get_repos_x_contributors_for_pi env (requested_pi env pi_arg)) < 1"
    using assms(2) by (cases "get_repos_x_contributors_for_pi env (requested_pi env pi_arg)") simp_all
  have w: "\<not> max_workers \<le> 0" using assms(4) by simp
  have a: "as_completed (resolved_done env) ([] :: (py_exn + resolved_row list) list) = []"
    by (simp add: as_completed_def)
  show ?thesis
  proof (cases "extend_all
                   (as_completed (commits_done env)
                      (map (process_commits_task env token time_start time_end)
                         (get_repos_x_contributors_for_pi env (requested_pi env pi_arg)))) []")
    case (Inl e)
    with assms(1,3) l w show ?thesis
      by (simp add: main_def Let_def aggregate_def)
  next
    case (Inr all_commits)
    with assms(1,3) l w show ?thesis
      by (simp add: main_def Let_def aggregate_def a drop_duplicates_def)
  qed
qed

theorem no_contributors_run_witness:
  "main (example_env (example_client (Inr [example_commit ''c'' (Inr [])]) no_results)
           [(''org'', ''repo'', ''alice'')] [])
       None None 10 =
     ([CommitsTask (''org'', ''repo'', ''alice'')],
      Inr \<lparr> authored_commits_csv = ''output/pi-26.1-authored-commits.csv'',
            authored_commits = [example_row ''org'' ''repo'' ''c''],
            resolved_csv = ''output/pi-26.1-resolved-issues-prs.csv'',
            resolved = [] \<rparr>)"
proof -
  let ?env = "example_env (example_client (Inr [example_commit ''c'' (Inr [])]) no_results)
                [(''org'', ''repo'', ''alice'')] []"
  have p: "requested_pi ?env None = ''pi-26.1''" by (simp add: requested_pi_def example_env_def)
  have t: "get_repos_x_contributors_for_pi ?env ''pi-26.1'' = [(''org'', ''repo'', ''alice'')]"
    and c: "get_contributors_for_pi ?env ''pi-26.1'' = []"
    and d: "commits_done ?env = (\<lambda>i. i)"
    by (simp_all add: example_env_def)
  have h1: "time_bounds ?env (requested_pi ?env None) = Inr (example_start, example_end)"
    unfolding p by (rule example_time_bounds)
  have h2: "get_repos_x_contributors_for_pi ?env (requested_pi ?env None) \<noteq> []"
    unfolding p t by simp
  have h3: "get_contributors_for_pi ?env (requested_pi ?env None) = []"
    unfolding p by (rule c)
  have h4: "0 < (10::int)" by simp
  from no_contributors_run[OF h1 h2 h3 h4, of None] show ?thesis
    unfolding p t d by (simp add: example_standalone_rows as_completed_def)
qed

end
